theory Spec2Isabelle
  imports Complex_Main "HOL-Library.Word"
begin

section \<open>JavaScript values used by \<open>src/src/App.js\<close>\<close>

text \<open>
  The query typed by the user is a JavaScript string, a sequence of UTF-16 code units:
  \<open>encodeURIComponent\<close> reads it code unit by code unit and throws on an unpaired
  surrogate. Text that the component only copies or concatenates (URLs, messages, ISBNs)
  is held as \<open>string\<close>. Numbers are integers, the shape the search API documents for
  \<open>numFound\<close> and \<open>cover_i\<close>; JavaScript represents them exactly below \<open>2 ^ 53\<close>.
\<close>

type_synonym jsstring = "16 word list"

datatype js_error = JsError (name: string) (message: string)

definition URIError :: js_error where
  "URIError = JsError ''URIError'' ''URI malformed''"

definition AbortError :: js_error where
  "AbortError = JsError ''AbortError'' ''The user aborted a request.''"

text \<open>The characters \<open>encodeURIComponent\<close> leaves alone: letters, digits and \<open>-_.!~*'()\<close>.\<close>

definition uriUnescaped :: "16 word \<Rightarrow> bool" where
  "uriUnescaped c =
     (let n = uint c in
        (65 \<le> n \<and> n \<le> 90) \<or> (97 \<le> n \<and> n \<le> 122) \<or> (48 \<le> n \<and> n \<le> 57) \<or>
        n = 45 \<or> n = 95 \<or> n = 46 \<or> n = 33 \<or> n = 126 \<or> n = 42 \<or> n = 39 \<or> n = 40 \<or> n = 41)"

definition hex_digit :: "int \<Rightarrow> char" where
  "hex_digit n = ''0123456789ABCDEF'' ! nat n"

definition percent :: "int \<Rightarrow> string" where
  "percent b = [CHR ''%'', hex_digit (b div 16), hex_digit (b mod 16)]"

definition utf8 :: "int \<Rightarrow> int list" where
  "utf8 cp =
     (if cp < 128 then [cp]
      else if cp < 2048 then [192 + cp div 64, 128 + cp mod 64]
      else if cp < 65536 then [224 + cp div 4096, 128 + (cp div 64) mod 64, 128 + cp mod 64]
      else [240 + cp div 262144, 128 + (cp div 4096) mod 64, 128 + (cp div 64) mod 64,
            128 + cp mod 64])"

definition escape :: "int \<Rightarrow> string" where
  "escape cp = concat (map percent (utf8 cp))"

definition is_lead :: "16 word \<Rightarrow> bool" where
  "is_lead c = (55296 \<le> uint c \<and> uint c \<le> 56319)"

definition is_trail :: "16 word \<Rightarrow> bool" where
  "is_trail c = (56320 \<le> uint c \<and> uint c \<le> 57343)"

text \<open>
  \<open>encodeURIComponent\<close> (ECMAScript \<open>Encode\<close>): an unescaped character is copied; any
  other code point is written as the percent-escaped octets of its UTF-8 form; a trail
  surrogate with no lead before it, or a lead with no trail after it, throws \<open>URIError\<close>.
\<close>

fun encodeURIComponent :: "jsstring \<Rightarrow> js_error + string" where
  "encodeURIComponent [] = Inr []"
| "encodeURIComponent (c # cs) =
     (if uriUnescaped c then map_sum id ((#) (char_of (uint c))) (encodeURIComponent cs)
      else if \<not> is_lead c \<and> \<not> is_trail c
        then map_sum id ((@) (escape (uint c))) (encodeURIComponent cs)
      else if is_trail c then Inl URIError
      else (case cs of
              [] \<Rightarrow> Inl URIError
            | d # ds \<Rightarrow>
                if is_trail d
                then map_sum id
                       ((@) (escape ((uint c - 55296) * 1024 + (uint d - 56320) + 65536)))
                       (encodeURIComponent ds)
                else Inl URIError))"

text \<open>A number inside a template literal: its decimal digits, with a sign when negative.\<close>

function decimal :: "int \<Rightarrow> string" where
  "decimal n = (if n < 10 then [hex_digit n] else decimal (n div 10) @ [hex_digit (n mod 10)])"
  by pat_completeness auto
termination
  by (relation "measure nat") auto

declare decimal.simps [simp del]

definition toString :: "int \<Rightarrow> string" where
  "toString i = (if i < 0 then CHR ''-'' # decimal (- i) else decimal i)"

section \<open>The search response\<close>

record doc =
  key :: string
  title :: string
  author_name :: "string list option"
  first_publish_year :: "int option"
  cover_i :: "int option"
  isbn :: "string list option"

text \<open>The parsed body \<open>data\<close>: both fields may be missing.\<close>

record data =
  docs :: "doc list option"
  numFound :: "int option"

text \<open>
  What the network gives back for one request: \<open>fetch\<close> rejects (a transport error, with
  the browser's message), or a response arrives with its status and a body that is not
  JSON (\<open>res.json()\<close> rejects with the parser's message), is the JSON value \<open>null\<close>, or is
  a JSON object read as \<open>data\<close>.
\<close>

datatype body = NotJson string | JsonNull | JsonData data

datatype outcome = Rejected string | Response int body

text \<open>\<open>res.ok\<close>: the status is in the range 200 to 299.\<close>

definition ok :: "int \<Rightarrow> bool" where
  "ok status = (200 \<le> status \<and> status \<le> 299)"

section \<open>\<open>coverUrl\<close> and \<open>totalPages\<close>\<close>

definition perPage :: int where
  "perPage = 20"

definition delay :: nat where
  "delay = 450"



definition totalPages :: "int \<Rightarrow> int" where
  "totalPages n = \<lceil>real_of_int n / real_of_int perPage\<rceil>"

section \<open>The component's state\<close>

text \<open>
  One request the component has issued: its URL, whether its \<open>AbortController\<close> has been
  aborted, and whether its promise has been settled (its continuation has run).
\<close>

record request =
  url :: string
  aborted :: bool
  settled :: bool

text \<open>
  The state variables of \<open>App\<close> and \<open>useDebounced\<close> (\<open>debouncedQuery\<close> is the hook's \<open>v\<close>),
  the dependency values each of the three effects last ran with (\<open>None\<close> before the first
  render), and what the effects' cleanups hold: the pending timeout of \<open>useDebounced\<close>
  (when it is due and the value it will set) and the request whose controller the fetch
  effect's cleanup aborts. \<open>now\<close> is the clock in milliseconds; \<open>requests\<close> lists every
  request issued, oldest first.
\<close>

record app =
  query :: jsstring
  debouncedQuery :: jsstring
  page :: int
  results :: "doc list"
  numFound :: int
  loading :: bool
  error :: "string option"
  deps_debounce :: "jsstring option"
  deps_reset :: "jsstring option"
  deps_fetch :: "(jsstring \<times> int) option"
  timer :: "(nat \<times> jsstring) option"
  controller :: "nat option"
  requests :: "request list"
  now :: nat

section \<open>\<open>fetchBooks\<close>\<close>

text \<open>Lines 41 to 44: the URL, or what \<open>encodeURIComponent\<close> throws.\<close>

definition fetch_url :: "jsstring \<Rightarrow> int \<Rightarrow> js_error + string" where
  "fetch_url dq p =
     (let start = (p - 1) * perPage in
      map_sum id
        (\<lambda>t. ''https://openlibrary.org/search.json?title='' @ t @ ''&limit='' @ toString perPage
              @ ''&offset='' @ toString start)
        (encodeURIComponent dq))"

text \<open>
  The \<open>catch\<close> and \<open>finally\<close> blocks (lines 50 to 55): an \<open>AbortError\<close> returns from the
  \<open>catch\<close> block without setting the error, and \<open>finally\<close> runs in either case.
\<close>

definition catch_finally :: "js_error \<Rightarrow> app \<Rightarrow> app" where
  "catch_finally err s =
     (if name err = ''AbortError'' then s else s\<lparr>error := Some (message err)\<rparr>)\<lparr>loading := False\<rparr>"

text \<open>
  \<open>fetchBooks\<close> up to its first \<open>await\<close> (lines 38 to 45), for the query and page of the
  render that ran the effect. When the URL cannot be built no request is issued and the
  \<open>catch\<close> and \<open>finally\<close> blocks run at once; the controller then has no request to abort.
\<close>

definition fetchBooks :: "jsstring \<Rightarrow> int \<Rightarrow> app \<Rightarrow> app" where
  "fetchBooks dq p s =
     (let s1 = s\<lparr>loading := True, error := None\<rparr> in
      case fetch_url dq p of
        Inl err \<Rightarrow> catch_finally err (s1\<lparr>controller := None\<rparr>)
      | Inr u \<Rightarrow>
          s1\<lparr>requests := requests s1 @ [\<lparr>url = u, aborted = False, settled = False\<rparr>],
             controller := Some (length (requests s1))\<rparr>)"

text \<open>
  What the \<open>try\<close> block gives once the network has answered (lines 45 to 49): the values
  for \<open>setResults\<close> and \<open>setNumFound\<close>, or the error thrown. An aborted request rejects with
  \<open>AbortError\<close> whatever the network did. \<open>data.docs\<close> on \<open>null\<close> throws a \<open>TypeError\<close>;
  \<open>data.docs || []\<close> and \<open>data.numFound || 0\<close> give the default for a missing field.
\<close>

definition resume :: "request \<Rightarrow> outcome \<Rightarrow> js_error + (doc list \<times> int)" where
  "resume r out =
     (if aborted r then Inl AbortError
      else case out of
        Rejected msg \<Rightarrow> Inl (JsError ''TypeError'' msg)
      | Response status b \<Rightarrow>
          if \<not> ok status then Inl (JsError ''Error'' ''Network response was not ok'')
          else (case b of
                  NotJson msg \<Rightarrow> Inl (JsError ''SyntaxError'' msg)
                | JsonNull \<Rightarrow> Inl (JsError ''TypeError'' ''Cannot read properties of null'')
                | JsonData d \<Rightarrow>
                    Inr (case docs d of None \<Rightarrow> [] | Some ds \<Rightarrow> ds,
                         case data.numFound d of None \<Rightarrow> 0 | Some n \<Rightarrow> n)))"

text \<open>
  The rest of \<open>fetchBooks\<close> for request \<open>i\<close>, run when its promise settles. A request that
  does not exist or has settled already has no continuation left.
\<close>

definition settle :: "nat \<Rightarrow> outcome \<Rightarrow> app \<Rightarrow> app" where
  "settle i out s =
     (if i < length (requests s) \<and> \<not> settled (requests s ! i) then
        (let r = requests s ! i;
             s1 = s\<lparr>requests := (requests s)[i := r\<lparr>settled := True\<rparr>]\<rparr>
         in case resume r out of
              Inl err \<Rightarrow> catch_finally err s1
            | Inr (ds, n) \<Rightarrow> s1\<lparr>results := ds, numFound := n, loading := False\<rparr>)
      else s)"

section \<open>Rendering and effects\<close>

definition changed_debounce :: "app \<Rightarrow> bool" where
  "changed_debounce s = (deps_debounce s \<noteq> Some (query s))"

definition changed_reset :: "app \<Rightarrow> bool" where
  "changed_reset s = (deps_reset s \<noteq> Some (debouncedQuery s))"

definition changed_fetch :: "app \<Rightarrow> bool" where
  "changed_fetch s = (deps_fetch s \<noteq> Some (debouncedQuery s, page s))"

text \<open>The cleanup of the fetch effect, line 59: \<open>controller.abort()\<close>.\<close>

definition abort :: "app \<Rightarrow> app" where
  "abort s =
     (case controller s of
        None \<Rightarrow> s
      | Some i \<Rightarrow>
          if i < length (requests s)
          then s\<lparr>requests := (requests s)[i := (requests s ! i)\<lparr>aborted := True\<rparr>]\<rparr>
          else s)"

text \<open>The body of the fetch effect, lines 29 to 57, for the render's query and page.\<close>

definition fetch_effect :: "jsstring \<Rightarrow> int \<Rightarrow> app \<Rightarrow> app" where
  "fetch_effect dq p s =
     (if dq = [] then s\<lparr>results := [], numFound := 0, error := None, controller := None\<rparr>
      else fetchBooks dq p s)"

text \<open>
  One commit. The render reads \<open>query\<close>, \<open>debouncedQuery\<close> and \<open>page\<close>; React then runs
  the cleanups of the effects whose dependencies changed and after them the effects
  themselves, in the order of the source: \<open>useDebounced\<close> (lines 6 to 9), the page reset
  (lines 24 to 26), the fetch (lines 28 to 60). Each effect sees the values of the render,
  so the fetch effect runs with the page the render had, also when the page reset has
  just called \<open>setPage(1)\<close>; the new page is seen by the next render.
\<close>

definition commit_effects :: "app \<Rightarrow> app" where
  "commit_effects s =
     (let c1 = changed_debounce s; c2 = changed_reset s; c3 = changed_fetch s;
          q = query s; dq = debouncedQuery s; p = page s;
          s1 = (if c1 then s\<lparr>timer := None\<rparr> else s);
          s2 = (if c3 then abort s1 else s1);
          s3 = (if c1 then s2\<lparr>timer := Some (now s2 + delay, q), deps_debounce := Some q\<rparr>
                else s2);
          s4 = (if c2 then s3\<lparr>page := 1, deps_reset := Some dq\<rparr> else s3);
          s5 = (if c3 then (fetch_effect dq p s4)\<lparr>deps_fetch := Some (dq, p)\<rparr> else s4)
      in s5)"

definition deps_changed :: "app \<Rightarrow> bool" where
  "deps_changed s = (changed_debounce s \<or> changed_reset s \<or> changed_fetch s)"

text \<open>
  After a state change React renders and commits until no effect has anything left to
  do. Only the page reset changes a dependency of another effect, so this ends.
\<close>

function flush :: "app \<Rightarrow> app" where
  "flush s = (if deps_changed s then flush (commit_effects s) else s)"
  by pat_completeness auto
termination
proof (relation "measure (\<lambda>s. if changed_reset s then 2 else if deps_changed s then 1 else 0)")
  show "wf (measure (\<lambda>s. if changed_reset s then 2 else if deps_changed s then 1 else (0::nat)))"
    by simp
next
  fix s
  assume ch: "deps_changed s"
  have A: "query (abort t) = query t" "debouncedQuery (abort t) = debouncedQuery t"
    "page (abort t) = page t" "deps_debounce (abort t) = deps_debounce t"
    "deps_reset (abort t) = deps_reset t" "deps_fetch (abort t) = deps_fetch t" for t
    by (simp_all add: abort_def split: option.split)
  have F: "query (fetch_effect x n t) = query t"
    "debouncedQuery (fetch_effect x n t) = debouncedQuery t"
    "page (fetch_effect x n t) = page t" "deps_debounce (fetch_effect x n t) = deps_debounce t"
    "deps_reset (fetch_effect x n t) = deps_reset t" for x n t
    by (simp_all add: fetch_effect_def fetchBooks_def catch_finally_def Let_def split: sum.split)
  have q: "query (commit_effects s) = query s"
    by (simp add: commit_effects_def Let_def A F)
  have dq: "debouncedQuery (commit_effects s) = debouncedQuery s"
    by (simp add: commit_effects_def Let_def A F)
  have d1: "deps_debounce (commit_effects s) = Some (query s)"
    by (simp add: commit_effects_def Let_def A F changed_debounce_def)
  have d2: "deps_reset (commit_effects s) = Some (debouncedQuery s)"
    by (simp add: commit_effects_def Let_def A F changed_reset_def)
  have d3: "deps_fetch (commit_effects s) = Some (debouncedQuery s, page s)"
    by (simp add: commit_effects_def Let_def A F changed_fetch_def)
  have p: "\<not> changed_reset s \<Longrightarrow> page (commit_effects s) = page s"
    by (simp add: commit_effects_def Let_def A F)
  have r: "\<not> changed_reset (commit_effects s)"
    by (simp add: changed_reset_def d2 dq)
  have "\<not> changed_reset s \<Longrightarrow> \<not> deps_changed (commit_effects s)"
    by (simp add: deps_changed_def changed_debounce_def changed_reset_def changed_fetch_def
        q dq d1 d2 d3 p)
  with ch r
  show "(commit_effects s, s)
          \<in> measure (\<lambda>s. if changed_reset s then 2 else if deps_changed s then 1 else 0)"
    by simp
qed

declare flush.simps [simp del]

text \<open>The first render and commit of a freshly created component.\<close>

definition init :: app where
  "init = \<lparr>query = [], debouncedQuery = [], page = 1, results = [], numFound = 0,
           loading = False, error = None, deps_debounce = None, deps_reset = None,
           deps_fetch = None, timer = None, controller = None, requests = [], now = 0\<rparr>"

definition mount :: app where
  "mount = flush init"

section \<open>Events\<close>

text \<open>
  What can happen to a mounted component: the input's \<open>onChange\<close> or the Clear button
  calls \<open>setQuery\<close>; time passes, and the pending timeout of \<open>useDebounced\<close> runs once it
  is due; the Prev or Next button is clicked (a disabled button does not call its
  handler); the promise of a request settles.
\<close>

datatype event = SetQuery jsstring | Elapse nat | ClickPrev | ClickNext | Settle nat outcome

definition elapse :: "nat \<Rightarrow> app \<Rightarrow> app" where
  "elapse d s =
     (let s1 = s\<lparr>now := now s + d\<rparr> in
      case timer s1 of
        None \<Rightarrow> s1
      | Some (due, x) \<Rightarrow>
          if due \<le> now s1 then flush (s1\<lparr>timer := None, debouncedQuery := x\<rparr>) else s1)"

definition prev_disabled :: "app \<Rightarrow> bool" where
  "prev_disabled s = (page s = 1)"

definition prev_handler :: "app \<Rightarrow> app" where
  "prev_handler s = s\<lparr>page := max 1 (page s - 1)\<rparr>"

definition next_disabled :: "app \<Rightarrow> bool" where
  "next_disabled s = (page s = totalPages (numFound s) \<or> totalPages (numFound s) = 0)"

definition next_handler :: "app \<Rightarrow> app" where
  "next_handler s =
     s\<lparr>page := min (if totalPages (numFound s) \<noteq> 0 then totalPages (numFound s) else 1)
                   (page s + 1)\<rparr>"


fun step :: "event \<Rightarrow> app \<Rightarrow> app" where
  "step (SetQuery x) s = flush (s\<lparr>query := x\<rparr>)"
| "step (Elapse d) s = elapse d s"
| "step ClickPrev s = (if prev_disabled s then s else flush (prev_handler s))"
| "step ClickNext s = (if next_disabled s then s else flush (next_handler s))"
| "step (Settle i out) s = flush (settle i out s)"

primrec run :: "event list \<Rightarrow> app \<Rightarrow> app" where
  "run [] s = s"
| "run (e # es) s = run es (step e s)"

section \<open>Notions used to state the properties\<close>

text \<open>
  A request is live when its continuation can still write the state: it has been issued,
  its promise has not settled and its controller has not been aborted.
\<close>

definition live :: "app \<Rightarrow> nat \<Rightarrow> bool" where
  "live s i = (i < length (requests s) \<and> \<not> settled (requests s ! i) \<and> \<not> aborted (requests s ! i))"

text \<open>
  The ownership invariant: a live request is the one whose controller the fetch effect's
  cleanup holds, and while a request is live no error is shown.
\<close>

definition owned :: "app \<Rightarrow> bool" where
  "owned s = (\<forall>i. live s i \<longrightarrow> controller s = Some i \<and> error s = None)"

text \<open>
  The Failed transition from \<open>s\<close> to \<open>s'\<close>: the message is shown, loading is cleared, and
  the results and the count are the ones \<open>s\<close> had.
\<close>

definition failed_with :: "app \<Rightarrow> app \<Rightarrow> string \<Rightarrow> bool" where
  "failed_with s s' msg =
     (error s' = Some msg \<and> \<not> loading s' \<and> results s' = results s \<and> numFound s' = numFound s)"





section \<open>\<open>totalPages\<close> in integer arithmetic\<close>


section \<open>Rendering settles after at most two commits\<close>

lemma flush_stable: "\<not> deps_changed s \<Longrightarrow> flush s = s"
  by (simp add: flush.simps)

lemma flush_changed: "deps_changed s \<Longrightarrow> flush s = flush (commit_effects s)"
  by (subst flush.simps) simp

lemma abort_frame:
  "query (abort t) = query t" "debouncedQuery (abort t) = debouncedQuery t"
  "page (abort t) = page t" "deps_debounce (abort t) = deps_debounce t"
  "deps_reset (abort t) = deps_reset t" "deps_fetch (abort t) = deps_fetch t"
  "results (abort t) = results t" "numFound (abort t) = numFound t"
  "loading (abort t) = loading t" "error (abort t) = error t"
  "timer (abort t) = timer t" "now (abort t) = now t" "controller (abort t) = controller t"
  "length (requests (abort t)) = length (requests t)"
  by (simp_all add: abort_def split: option.split)

lemma fetch_effect_frame:
  "query (fetch_effect x n t) = query t"
  "debouncedQuery (fetch_effect x n t) = debouncedQuery t"
  "page (fetch_effect x n t) = page t" "deps_debounce (fetch_effect x n t) = deps_debounce t"
  "deps_reset (fetch_effect x n t) = deps_reset t" "deps_fetch (fetch_effect x n t) = deps_fetch t"
  "timer (fetch_effect x n t) = timer t" "now (fetch_effect x n t) = now t"
  by (simp_all add: fetch_effect_def fetchBooks_def catch_finally_def Let_def split: sum.split)

lemma commit_frame:
  "query (commit_effects s) = query s"
  "debouncedQuery (commit_effects s) = debouncedQuery s"
  "now (commit_effects s) = now s"
  by (simp_all add: commit_effects_def Let_def abort_frame fetch_effect_frame)

lemma commit_deps:
  "deps_debounce (commit_effects s) = Some (query s)"
  "deps_reset (commit_effects s) = Some (debouncedQuery s)"
  "deps_fetch (commit_effects s) = Some (debouncedQuery s, page s)"
  by (simp_all add: commit_effects_def Let_def abort_frame fetch_effect_frame
      changed_debounce_def changed_reset_def changed_fetch_def)

lemma commit_page:
  "page (commit_effects s) = (if changed_reset s then 1 else page s)"
  by (simp add: commit_effects_def Let_def abort_frame fetch_effect_frame)


lemma commit_not_reset: "\<not> changed_reset (commit_effects s)"
  by (simp add: changed_reset_def commit_deps commit_frame)

lemma commit_not_debounce: "\<not> changed_debounce (commit_effects s)"
  by (simp add: changed_debounce_def commit_deps commit_frame)

lemma commit_fetch_iff:
  "changed_fetch (commit_effects s) \<longleftrightarrow> changed_reset s \<and> page s \<noteq> 1"
  by (simp add: changed_fetch_def commit_deps commit_frame commit_page)

lemma commit_stable: "\<not> changed_reset s \<Longrightarrow> \<not> deps_changed (commit_effects s)"
  by (simp add: deps_changed_def commit_not_reset commit_not_debounce commit_fetch_iff)

lemma commit_twice_stable: "\<not> deps_changed (commit_effects (commit_effects s))"
  by (rule commit_stable) (rule commit_not_reset)

lemma flush_cases:
  "flush s =
     (if deps_changed s
      then (if deps_changed (commit_effects s) then commit_effects (commit_effects s)
            else commit_effects s)
      else s)"
  by (simp add: flush_stable flush_changed commit_twice_stable)

lemma flush_is_stable: "\<not> deps_changed (flush s)"
  by (simp add: flush_cases commit_twice_stable)

lemma flush_frame:
  "query (flush s) = query s" "debouncedQuery (flush s) = debouncedQuery s"
  "now (flush s) = now s"
  by (simp_all add: flush_cases commit_frame)


section \<open>Cover URL\<close>




section \<open>Every event leaves the component settled\<close>

lemma deps_changed_now: "deps_changed (s\<lparr>now := n\<rparr>) = deps_changed s"
  by (simp add: deps_changed_def changed_debounce_def changed_reset_def changed_fetch_def)

lemma elapse_stable: "\<not> deps_changed s \<Longrightarrow> \<not> deps_changed (elapse d s)"
  by (simp add: elapse_def Let_def flush_is_stable deps_changed_now split: option.split prod.split)

lemma step_stable: "\<not> deps_changed s \<Longrightarrow> \<not> deps_changed (step e s)"
  by (cases e) (simp_all add: flush_is_stable elapse_stable)

lemma run_stable: "\<not> deps_changed s \<Longrightarrow> \<not> deps_changed (run evs s)"
  by (induction evs arbitrary: s) (simp_all add: step_stable)

lemma mount_stable: "\<not> deps_changed mount"
  by (simp add: mount_def flush_is_stable)

lemma reachable_stable: "\<not> deps_changed (run evs mount)"
  by (simp add: run_stable mount_stable)


section \<open>Pagination controls\<close>



section \<open>When a request settles\<close>

lemma catch_finally_frame:
  "query (catch_finally e t) = query t" "debouncedQuery (catch_finally e t) = debouncedQuery t"
  "page (catch_finally e t) = page t" "deps_debounce (catch_finally e t) = deps_debounce t"
  "deps_reset (catch_finally e t) = deps_reset t" "deps_fetch (catch_finally e t) = deps_fetch t"
  "results (catch_finally e t) = results t" "numFound (catch_finally e t) = numFound t"
  "requests (catch_finally e t) = requests t" "controller (catch_finally e t) = controller t"
  "timer (catch_finally e t) = timer t" "now (catch_finally e t) = now t"
  "loading (catch_finally e t) = False"
  by (simp_all add: catch_finally_def)

lemma settle_deps: "deps_changed (settle i out s) = deps_changed s"
  by (simp add: settle_def Let_def deps_changed_def changed_debounce_def changed_reset_def
      changed_fetch_def catch_finally_frame split: sum.split prod.split)

lemma step_Settle: "\<not> deps_changed s \<Longrightarrow> step (Settle i out) s = settle i out s"
  by (simp add: flush_stable settle_deps)

lemma resume_live:
  "\<not> aborted r \<Longrightarrow>
   resume r out =
     (case out of
        Rejected msg \<Rightarrow> Inl (JsError ''TypeError'' msg)
      | Response status b \<Rightarrow>
          if \<not> ok status then Inl (JsError ''Error'' ''Network response was not ok'')
          else (case b of
                  NotJson msg \<Rightarrow> Inl (JsError ''SyntaxError'' msg)
                | JsonNull \<Rightarrow> Inl (JsError ''TypeError'' ''Cannot read properties of null'')
                | JsonData d \<Rightarrow>
                    Inr (case docs d of None \<Rightarrow> [] | Some ds \<Rightarrow> ds,
                         case data.numFound d of None \<Rightarrow> 0 | Some n \<Rightarrow> n)))"
  by (simp add: resume_def)

lemma settle_failure:
  assumes "live s i" and "resume (requests s ! i) out = Inl (JsError nm msg)"
    and "nm \<noteq> ''AbortError''"
  shows "error (settle i out s) = Some msg" "loading (settle i out s) = False"
    "results (settle i out s) = results s" "numFound (settle i out s) = numFound s"
  using assms by (simp_all add: settle_def live_def Let_def catch_finally_def)

lemma settle_success:
  assumes "live s i" and "resume (requests s ! i) out = Inr (ds, n)"
  shows "error (settle i out s) = error s" "loading (settle i out s) = False"
    "results (settle i out s) = ds" "numFound (settle i out s) = n"
  using assms by (simp_all add: settle_def live_def Let_def)

lemma settle_aborted:
  assumes "i < length (requests s)" and "\<not> settled (requests s ! i)" and "aborted (requests s ! i)"
  shows "settle i out s =
           s\<lparr>requests := (requests s)[i := (requests s ! i)\<lparr>settled := True\<rparr>], loading := False\<rparr>"
  using assms by (simp add: settle_def Let_def resume_def catch_finally_def AbortError_def)

section \<open>At most one request is live\<close>

lemma live_cong: "requests t = requests s \<Longrightarrow> live t i = live s i"
  by (simp add: live_def)

lemma owned_cong:
  "requests t = requests s \<Longrightarrow> controller t = controller s \<Longrightarrow> error t = error s \<Longrightarrow>
   owned t = owned s"
  by (simp add: owned_def live_def)

lemma abort_not_live:
  assumes "owned s"
  shows "\<not> live (abort s) i"
proof
  assume l: "live (abort s) i"
  show False
  proof (cases "controller s")
    case None
    with l have "live s i" by (simp add: abort_def)
    with assms None show False by (simp add: owned_def)
  next
    case (Some c)
    show False
    proof (cases "c < length (requests s)")
      case False
      with l Some have "live s i" by (simp add: abort_def)
      with assms Some False show False by (auto simp: owned_def live_def)
    next
      case True
      show False
      proof (cases "i = c")
        case True
        with l Some \<open>c < length (requests s)\<close> show False
          by (simp add: abort_def live_def)
      next
        case False
        with l Some \<open>c < length (requests s)\<close> have "live s i"
          by (simp add: abort_def live_def)
        with assms Some False show False by (simp add: owned_def)
      qed
    qed
  qed
qed

lemma fetch_effect_requests:
  "requests (fetch_effect dq p t) =
     (if dq = [] then requests t
      else case fetch_url dq p of
             Inl e \<Rightarrow> requests t
           | Inr u \<Rightarrow> requests t @ [\<lparr>url = u, aborted = False, settled = False\<rparr>])"
  by (simp add: fetch_effect_def fetchBooks_def catch_finally_def Let_def split: sum.split)

lemma fetch_effect_controller:
  "controller (fetch_effect dq p t) =
     (if dq = [] then None
      else case fetch_url dq p of Inl e \<Rightarrow> None | Inr u \<Rightarrow> Some (length (requests t)))"
  by (simp add: fetch_effect_def fetchBooks_def catch_finally_def Let_def split: sum.split)

lemma fetch_effect_error:
  "error (fetch_effect dq p t) =
     (if dq = [] then None
      else case fetch_url dq p of
             Inl e \<Rightarrow> if name e = ''AbortError'' then None else Some (message e)
           | Inr u \<Rightarrow> None)"
  by (simp add: fetch_effect_def fetchBooks_def catch_finally_def Let_def split: sum.split)

lemma fetch_effect_loading:
  "loading (fetch_effect dq p t) =
     (if dq = [] then loading t
      else case fetch_url dq p of Inl e \<Rightarrow> False | Inr u \<Rightarrow> True)"
  by (simp add: fetch_effect_def fetchBooks_def catch_finally_def Let_def split: sum.split)

lemma fetch_effect_results:
  "results (fetch_effect dq p t) = (if dq = [] then [] else results t)"
  "numFound (fetch_effect dq p t) = (if dq = [] then 0 else numFound t)"
  by (simp_all add: fetch_effect_def fetchBooks_def catch_finally_def Let_def split: sum.split)

lemma fetch_effect_owned:
  assumes "\<And>i. \<not> live t i"
  shows "owned (fetch_effect dq p t)"
proof -
  have "controller (fetch_effect dq p t) = Some i \<and> error (fetch_effect dq p t) = None"
    if l: "live (fetch_effect dq p t) i" for i
  proof (cases "dq = []")
    case True
    with l have "live t i" by (simp add: live_def fetch_effect_requests)
    with assms show ?thesis by simp
  next
    case False
    show ?thesis
    proof (cases "fetch_url dq p")
      case (Inl e)
      with l False have "live t i" by (simp add: live_def fetch_effect_requests)
      with assms show ?thesis by simp
    next
      case (Inr u)
      have "i = length (requests t)"
      proof (rule ccontr)
        assume "i \<noteq> length (requests t)"
        with l False Inr have "live t i"
          by (auto simp: live_def fetch_effect_requests nth_append split: if_splits)
        with assms show False by simp
      qed
      with False Inr show ?thesis
        by (simp add: fetch_effect_controller fetch_effect_error)
    qed
  qed
  then show ?thesis by (simp add: owned_def)
qed

lemma abort_update:
  "abort (t\<lparr>timer := x\<rparr>) = (abort t)\<lparr>timer := x\<rparr>"
  "abort (t\<lparr>page := y\<rparr>) = (abort t)\<lparr>page := y\<rparr>"
  "abort (t\<lparr>deps_debounce := z\<rparr>) = (abort t)\<lparr>deps_debounce := z\<rparr>"
  "abort (t\<lparr>deps_reset := z\<rparr>) = (abort t)\<lparr>deps_reset := z\<rparr>"
  by (simp_all add: abort_def split: option.split)

lemma commit_fields:
  "requests (commit_effects s) =
     (if changed_fetch s then requests (fetch_effect (debouncedQuery s) (page s) (abort s))
      else requests s)"
  "controller (commit_effects s) =
     (if changed_fetch s then controller (fetch_effect (debouncedQuery s) (page s) (abort s))
      else controller s)"
  "error (commit_effects s) =
     (if changed_fetch s then error (fetch_effect (debouncedQuery s) (page s) (abort s))
      else error s)"
  "results (commit_effects s) =
     (if changed_fetch s then results (fetch_effect (debouncedQuery s) (page s) (abort s))
      else results s)"
  "numFound (commit_effects s) =
     (if changed_fetch s then numFound (fetch_effect (debouncedQuery s) (page s) (abort s))
      else numFound s)"
  "loading (commit_effects s) =
     (if changed_fetch s then loading (fetch_effect (debouncedQuery s) (page s) (abort s))
      else loading s)"
  by (simp_all add: commit_effects_def Let_def fetch_effect_requests fetch_effect_controller
      fetch_effect_error fetch_effect_results fetch_effect_loading abort_frame abort_update
      split: sum.split)

lemma commit_owned:
  assumes "owned s"
  shows "owned (commit_effects s)"
proof (cases "changed_fetch s")
  case False
  then have "owned (commit_effects s) = owned s"
    by (intro owned_cong) (simp_all add: commit_fields)
  with assms show ?thesis by simp
next
  case True
  have "owned (fetch_effect (debouncedQuery s) (page s) (abort s))"
    by (rule fetch_effect_owned) (rule abort_not_live [OF assms])
  moreover have "owned (commit_effects s)
                   = owned (fetch_effect (debouncedQuery s) (page s) (abort s))"
    using True by (intro owned_cong) (simp_all add: commit_fields)
  ultimately show ?thesis by simp
qed

lemma flush_owned: "owned s \<Longrightarrow> owned (flush s)"
  by (simp add: flush_cases commit_owned)

lemma settle_owned:
  assumes "owned s"
  shows "owned (settle i out s)"
proof (cases "i < length (requests s) \<and> \<not> settled (requests s ! i)")
  case False
  then have "settle i out s = s" by (auto simp: settle_def)
  with assms show ?thesis by simp
next
  case True
  let ?rs = "(requests s)[i := (requests s ! i)\<lparr>settled := True\<rparr>]"
  have rq: "requests (settle i out s) = ?rs"
    using True
    by (simp add: settle_def Let_def catch_finally_frame split: sum.split prod.split)
  have ct: "controller (settle i out s) = controller s"
    using True
    by (simp add: settle_def Let_def catch_finally_frame split: sum.split prod.split)
  have lv: "live s j \<and> j \<noteq> i" if "live (settle i out s) j" for j
    using that True by (cases "j = i") (simp_all add: live_def rq)
  have "controller (settle i out s) = Some j \<and> error (settle i out s) = None"
    if l: "live (settle i out s) j" for j
  proof -
    from lv [OF l] have lj: "live s j" and ne: "j \<noteq> i" by simp_all
    from assms lj have cj: "controller s = Some j" and en: "error s = None"
      by (simp_all add: owned_def)
    have "\<not> live s i \<or> i = j"
      using assms cj by (auto simp: owned_def)
    with ne have "\<not> live s i" by simp
    with True have ab: "aborted (requests s ! i)" by (simp add: live_def)
    have "error (settle i out s) = error s"
      using True ab by (simp add: settle_aborted)
    with cj en ct show ?thesis by simp
  qed
  then show ?thesis by (simp add: owned_def)
qed

lemma owned_fields:
  "owned (s\<lparr>query := q\<rparr>) = owned s" "owned (s\<lparr>page := p\<rparr>) = owned s"
  "owned (s\<lparr>now := n\<rparr>) = owned s" "owned (s\<lparr>timer := tm\<rparr>) = owned s"
  "owned (s\<lparr>debouncedQuery := dq\<rparr>) = owned s"
  by (simp_all add: owned_def live_def)

lemma step_owned: "owned s \<Longrightarrow> owned (step e s)"
proof (cases e)
  case (Elapse d)
  assume "owned s"
  then show ?thesis
    by (simp add: Elapse elapse_def Let_def flush_owned owned_fields
        split: option.split prod.split)
qed (simp_all add: flush_owned settle_owned owned_fields prev_handler_def next_handler_def)

lemma run_owned: "owned s \<Longrightarrow> owned (run evs s)"
  by (induction evs arbitrary: s) (simp_all add: step_owned)

lemma mount_owned: "owned mount"
proof -
  have "owned init" by (simp add: owned_def live_def init_def)
  then show ?thesis by (simp add: mount_def flush_owned)
qed

lemma reachable_owned: "owned (run evs mount)"
  by (simp add: run_owned mount_owned)

section \<open>Failed requests\<close>

lemma live_failure:
  assumes "\<not> deps_changed s" and "live s i"
    and "resume (requests s ! i) out = Inl (JsError nm msg)" and "nm \<noteq> ''AbortError''"
  shows "failed_with s (step (Settle i out) s) msg"
  using assms by (simp add: step_Settle failed_with_def settle_failure del: step.simps)



section \<open>Responses of another shape\<close>

lemma live_success:
  assumes "\<not> deps_changed s" and "owned s" and "live s i" and "ok st"
  shows "error (step (Settle i (Response st (JsonData d))) s) = None"
    "loading (step (Settle i (Response st (JsonData d))) s) = False"
    "results (step (Settle i (Response st (JsonData d))) s)
       = (case docs d of None \<Rightarrow> [] | Some ds \<Rightarrow> ds)"
    "numFound (step (Settle i (Response st (JsonData d))) s)
       = (case data.numFound d of None \<Rightarrow> 0 | Some n \<Rightarrow> n)"
proof -
  have na: "\<not> aborted (requests s ! i)"
    using assms(3) by (simp add: live_def)
  have e: "error s = None"
    using assms(2,3) by (simp add: owned_def)
  have r: "resume (requests s ! i) (Response st (JsonData d))
             = Inr (case docs d of None \<Rightarrow> [] | Some ds \<Rightarrow> ds,
                    case data.numFound d of None \<Rightarrow> 0 | Some n \<Rightarrow> n)"
    using assms(4) by (simp add: resume_live [OF na])
  show "error (step (Settle i (Response st (JsonData d))) s) = None"
    "loading (step (Settle i (Response st (JsonData d))) s) = False"
    "results (step (Settle i (Response st (JsonData d))) s)
       = (case docs d of None \<Rightarrow> [] | Some ds \<Rightarrow> ds)"
    "numFound (step (Settle i (Response st (JsonData d))) s)
       = (case data.numFound d of None \<Rightarrow> 0 | Some n \<Rightarrow> n)"
    using settle_success [OF assms(3) r] e
    by (simp_all add: step_Settle [OF assms(1)] del: step.simps)
qed

text \<open>
  C5, as amended. In every state the component can reach, a live request whose response
  has a status outside 200 to 299, or a 2xx status and a body that is not JSON, ends in
  the Failed state. A 2xx response whose body is a JSON object without \<open>docs\<close> ends in
  success: the results become the empty list, the count is the one of the response (0
  when missing), loading is cleared and no error is shown.
\<close>

theorem response_shape:
  fixes evs :: "event list"
  defines "s \<equiv> run evs mount"
  assumes "live s i"
  shows "(\<not> ok st \<longrightarrow>
            error (step (Settle i (Response st b)) s) = Some ''Network response was not ok'') \<and>
         (ok st \<longrightarrow> error (step (Settle i (Response st (NotJson msg))) s) = Some msg) \<and>
         (ok st \<and> docs d = None \<longrightarrow>
            error (step (Settle i (Response st (JsonData d))) s) = None \<and>
            results (step (Settle i (Response st (JsonData d))) s) = [] \<and>
            numFound (step (Settle i (Response st (JsonData d))) s)
              = (case data.numFound d of None \<Rightarrow> 0 | Some n \<Rightarrow> n) \<and>
            \<not> loading (step (Settle i (Response st (JsonData d))) s))"
proof -
  have st: "\<not> deps_changed s"
    by (simp add: s_def reachable_stable)
  have ow: "owned s"
    by (simp add: s_def reachable_owned)
  have na: "\<not> aborted (requests s ! i)"
    using assms(2) by (simp add: live_def)
  have 1: "error (step (Settle i (Response st b)) s) = Some ''Network response was not ok''"
    if "\<not> ok st"
  proof -
    have "failed_with s (step (Settle i (Response st b)) s) ''Network response was not ok''"
      using that
      by (intro live_failure [OF st assms(2), where nm = "''Error''"])
         (simp_all add: resume_live [OF na])
    then show ?thesis by (simp add: failed_with_def del: step.simps)
  qed
  have 2: "error (step (Settle i (Response st (NotJson msg))) s) = Some msg" if "ok st"
  proof -
    have "failed_with s (step (Settle i (Response st (NotJson msg))) s) msg"
      using that
      by (intro live_failure [OF st assms(2), where nm = "''SyntaxError''"])
         (simp_all add: resume_live [OF na])
    then show ?thesis by (simp add: failed_with_def del: step.simps)
  qed
  show ?thesis
    using 1 2 live_success [OF st ow assms(2), of st d]
    by (simp del: step.simps)
qed

theorem response_shape_witness:
  "live (run [SetQuery [68], Elapse 450] mount) 0 \<and> ok 200 \<and>
   error (step (Settle 0 (Response 200 (NotJson ''Unexpected token'')))
           (run [SetQuery [68], Elapse 450] mount)) = Some ''Unexpected token'' \<and>
   results (step (Settle 0 (Response 200 (JsonData \<lparr>docs = None, data.numFound = None\<rparr>)))
             (run [SetQuery [68], Elapse 450] mount)) = [] \<and>
   numFound (step (Settle 0 (Response 200 (JsonData \<lparr>docs = None, data.numFound = None\<rparr>)))
              (run [SetQuery [68], Elapse 450] mount)) = 0"
proof -
  have l: "live (run [SetQuery [68], Elapse 450] mount) 0"
    by code_simp
  have k: "ok 200"
    by (simp add: ok_def)
  show ?thesis
    using l k
      response_shape [OF l, of 200 JsonNull "''Unexpected token''"
        "\<lparr>docs = None, data.numFound = None\<rparr>"]
    by (simp del: run.simps step.simps)
qed

text \<open>
  The claim as first stated fails: a 2xx response whose JSON object has no \<open>docs\<close> sets
  the results to the empty list and the count to 45, and shows no error.
\<close>

theorem missing_docs_is_success_counterexample:
  "live (run [SetQuery [68], Elapse 450] mount) 0 \<and>
   error (step (Settle 0 (Response 200 (JsonData \<lparr>docs = None, data.numFound = Some 45\<rparr>)))
           (run [SetQuery [68], Elapse 450] mount)) = None \<and>
   results (step (Settle 0 (Response 200 (JsonData \<lparr>docs = None, data.numFound = Some 45\<rparr>)))
             (run [SetQuery [68], Elapse 450] mount)) = [] \<and>
   numFound (step (Settle 0 (Response 200 (JsonData \<lparr>docs = None, data.numFound = Some 45\<rparr>)))
              (run [SetQuery [68], Elapse 450] mount)) = 45"
  by code_simp

section \<open>The request of a fetch\<close>

text \<open>A query without surrogate code units is always accepted by \<open>encodeURIComponent\<close>.\<close>

lemma encodeURIComponent_no_surrogates:
  "list_all (\<lambda>c. \<not> is_lead c \<and> \<not> is_trail c) dq \<Longrightarrow> \<exists>t. encodeURIComponent dq = Inr t"
proof (induction dq)
  case Nil
  then show ?case by simp
next
  case (Cons c cs)
  then obtain t where "encodeURIComponent cs = Inr t" by auto
  with Cons.prems show ?case by simp
qed






section \<open>A superseded request\<close>

text \<open>
  C1, at the input where the code departs from it. The query \<open>a\<close> settles and its request
  (number 0) is issued; before it is answered the query \<open>b\<close> settles, which aborts request
  0 and issues request 1, and loading is shown. When the promise of the aborted request
  0 then rejects, its \<open>finally\<close> block clears loading although request 1 is still live.
\<close>

theorem cancelled_request_clears_loading:
  "loading (run [SetQuery [97], Elapse 450, SetQuery [98], Elapse 450] mount) \<and>
   aborted (requests (run [SetQuery [97], Elapse 450, SetQuery [98], Elapse 450] mount) ! 0) \<and>
   \<not> settled (requests (run [SetQuery [97], Elapse 450, SetQuery [98], Elapse 450] mount) ! 0) \<and>
   live (run [SetQuery [97], Elapse 450, SetQuery [98], Elapse 450] mount) 1 \<and>
   \<not> loading
       (run [SetQuery [97], Elapse 450, SetQuery [98], Elapse 450, Settle 0 (Rejected [])] mount) \<and>
   live (run [SetQuery [97], Elapse 450, SetQuery [98], Elapse 450, Settle 0 (Rejected [])] mount) 1"
  by code_simp

section \<open>The first fetch after a query change\<close>

text \<open>
  When the debounced query takes a new value, the page is 1 once rendering has settled,
  and the fetch effect has last run for the new query and page 1.
\<close>

lemma query_change_resets_page:
  assumes "\<not> deps_changed s" and "timer s = Some (due, x)" and "due \<le> now s + d"
    and "x \<noteq> debouncedQuery s"
  shows "page (step (Elapse d) s) = 1" "deps_fetch (step (Elapse d) s) = Some (x, 1)"
proof -
  let ?t = "s\<lparr>now := now s + d, timer := None, debouncedQuery := x\<rparr>"
  have e: "step (Elapse d) s = flush ?t"
    using assms(2,3) by (simp add: elapse_def Let_def)
  have cr: "changed_reset ?t"
    using assms(1,4) by (auto simp: deps_changed_def changed_reset_def)
  have dc: "deps_changed ?t"
    using cr by (simp add: deps_changed_def)
  have p: "page (flush ?t) = 1"
    using cr dc by (simp add: flush_cases commit_page commit_not_reset)
  have "\<not> changed_fetch (flush ?t)"
    using flush_is_stable [of ?t] by (simp add: deps_changed_def)
  then have "deps_fetch (flush ?t) = Some (x, 1)"
    by (simp add: changed_fetch_def p flush_frame)
  with p show "page (step (Elapse d) s) = 1" "deps_fetch (step (Elapse d) s) = Some (x, 1)"
    by (simp_all add: e del: step.simps)
qed

text \<open>
  C2, at the input where the code departs from it. The query \<open>a\<close> is answered with 45
  results and the user goes to page 2; then the query \<open>b\<close> settles. The commit that sees
  the new query runs the fetch effect with the page of that render, 2, so the first
  request for \<open>b\<close> asks for offset 20; the page reset is seen by the next render, which
  aborts that request and issues the one for offset 0.
\<close>

theorem query_change_fetches_stale_page:
  "map url
     (requests
       (run [SetQuery [97], Elapse 450,
             Settle 0 (Response 200 (JsonData \<lparr>docs = Some [], data.numFound = Some 45\<rparr>)),
             ClickNext, SetQuery [98], Elapse 450] mount))
     = [''https://openlibrary.org/search.json?title=a&limit=20&offset=0'',
        ''https://openlibrary.org/search.json?title=a&limit=20&offset=20'',
        ''https://openlibrary.org/search.json?title=b&limit=20&offset=20'',
        ''https://openlibrary.org/search.json?title=b&limit=20&offset=0''] \<and>
   page
     (run [SetQuery [97], Elapse 450,
           Settle 0 (Response 200 (JsonData \<lparr>docs = Some [], data.numFound = Some 45\<rparr>)),
           ClickNext, SetQuery [98], Elapse 450] mount) = 1 \<and>
   length
     (requests
       (run [SetQuery [97], Elapse 450,
             Settle 0 (Response 200 (JsonData \<lparr>docs = Some [], data.numFound = Some 45\<rparr>)),
             ClickNext, SetQuery [98]] mount)) = 2"
  by code_simp

section \<open>The empty query\<close>







section \<open>The page number stays positive\<close>















section \<open>Debouncing\<close>









end
